theory Spec2Isabelle
  imports Complex_Main
begin

section \<open>The quantizer of the quantization tutorial\<close>

text \<open>
  The notebook \<^verbatim>\<open>tutorials/quantization_tutorial.ipynb\<close> computes on floating-point
  tensors. The embedding below is over the reals: every arithmetic operation is the exact
  one, a tensor is the list of its elements, and the two places where floating point
  leaves the reals (a division by zero that raises, a division by zero that yields
  \<^verbatim>\<open>inf\<close>/\<^verbatim>\<open>nan\<close>) are outcomes of their own.
\<close>

subsection \<open>Primitives of the numeric runtime\<close>

text \<open>
  \<^verbatim>\<open>torch.clamp(input, min, max)\<close> and \<^verbatim>\<open>np.clip(a, a_min, a_max)\<close> compute
  \<^verbatim>\<open>min(max(x, min), max)\<close> elementwise; with \<^verbatim>\<open>min > max\<close> every element
  becomes \<^verbatim>\<open>max\<close>.
\<close>

definition clamp :: "real \<Rightarrow> real \<Rightarrow> real \<Rightarrow> real" where
  "clamp x lo hi = min (max x lo) hi"

text \<open>
  \<^verbatim>\<open>torch.round\<close> and \<^verbatim>\<open>np.round\<close> round to the nearest integer and send a value
  half-way between two integers to the even one.
\<close>

definition round_half_even :: "real \<Rightarrow> int" where
  "round_half_even x =
     (let f = \<lfloor>x\<rfloor>; d = x - of_int f
      in if d < 1 / 2 then f
         else if 1 / 2 < d then f + 1
         else if even f then f else f + 1)"

text \<open>Python's \<^verbatim>\<open>2 ** n\<close> for an integer \<^verbatim>\<open>n\<close>: a float when \<^verbatim>\<open>n\<close> is negative.\<close>

definition pow2 :: "int \<Rightarrow> real" where
  "pow2 n = (if 0 \<le> n then 2 ^ nat n else 1 / 2 ^ nat (- n))"

text \<open>
  The two ways a division by zero ends. \<open>ZeroDivisionError\<close>: both operands are Python
  numbers and Python raises. \<open>NonFinite\<close>: an operand is a tensor, an array or a NumPy
  scalar, nothing is raised and the quotient is \<^verbatim>\<open>inf\<close> or \<^verbatim>\<open>nan\<close>, which no real
  number stands for.
\<close>

datatype failure = ZeroDivisionError | NonFinite

subsection \<open>\<^verbatim>\<open>simpleQuantizer\<close>\<close>

text \<open>
  \<^verbatim>\<open>
  def simpleQuantizer(input, n_bit, clip_min, clip_max):
      zp = clip_min
      stepsize = (clip_max - zp) / (2 ** n_bit -1)

      y_scaled = (torch.clamp(input, clip_min, clip_max) - clip_min) / stepsize
      y_int    = torch.round(y_scaled)
      return y_int * stepsize + zp
  \<close>
  \<^verbatim>\<open>n_bit\<close> is a Python integer and the clip bounds are Python floats, as at every call
  in the notebook; \<^verbatim>\<open>input\<close> is a tensor. Each local variable is a definition of its
  own, at one element \<open>x\<close> of the tensor where it is a tensor; \<open>quant1\<close> is the returned
  expression at one element.
\<close>

definition zp :: "real \<Rightarrow> real" where
  "zp clip_min = clip_min"

definition stepsize :: "int \<Rightarrow> real \<Rightarrow> real \<Rightarrow> real" where
  "stepsize n_bit clip_min clip_max = (clip_max - zp clip_min) / (pow2 n_bit - 1)"

definition y_scaled :: "int \<Rightarrow> real \<Rightarrow> real \<Rightarrow> real \<Rightarrow> real" where
  "y_scaled n_bit clip_min clip_max x =
     (clamp x clip_min clip_max - clip_min) / stepsize n_bit clip_min clip_max"

definition y_int :: "int \<Rightarrow> real \<Rightarrow> real \<Rightarrow> real \<Rightarrow> int" where
  "y_int n_bit clip_min clip_max x = round_half_even (y_scaled n_bit clip_min clip_max x)"

definition quant1 :: "int \<Rightarrow> real \<Rightarrow> real \<Rightarrow> real \<Rightarrow> real" where
  "quant1 n_bit clip_min clip_max x =
     of_int (y_int n_bit clip_min clip_max x) * stepsize n_bit clip_min clip_max + zp clip_min"

text \<open>
  The division that computes \<^verbatim>\<open>stepsize\<close> is between Python numbers and raises when
  \<^verbatim>\<open>2 ** n_bit - 1\<close> is zero. When \<^verbatim>\<open>stepsize\<close> is zero the tensor division gives
  \<^verbatim>\<open>nan\<close> in every element (the dividend is zero too); an empty tensor stays empty.
\<close>

definition simpleQuantizer :: "real list \<Rightarrow> int \<Rightarrow> real \<Rightarrow> real \<Rightarrow> failure + real list" where
  "simpleQuantizer input n_bit clip_min clip_max =
     (if pow2 n_bit - 1 = 0 then Inl ZeroDivisionError
      else if stepsize n_bit clip_min clip_max = 0 \<and> input \<noteq> [] then Inl NonFinite
      else Inr (map (quant1 n_bit clip_min clip_max) input))"

subsection \<open>The symmetric quantizer of the comparison cell\<close>

text \<open>
  The cell that compares symmetric and asymmetric quantization runs, for a label without
  \<^verbatim>\<open>asym Q\<close>,
  \<^verbatim>\<open>
          # sym quantization
          clip_min_i = -max(clip_max, np.abs(clip_min))
          nbins = 2**n_bit -2
          scale = (clip_max - clip_min_i)/nbins
          zp = 0
      y_int_i = np.round( (np.clip(raw_i, clip_min, clip_max) - zp)/scale )
      yq_i = y_int_i*scale + zp
  \<close>
  on the array \<^verbatim>\<open>raw_i\<close>, with \<^verbatim>\<open>n_bit\<close>, \<^verbatim>\<open>clip_min\<close> and \<^verbatim>\<open>clip_max\<close> set
  by the cell; they are parameters here. The data is clipped to
  \<^verbatim>\<open>[clip_min, clip_max]\<close>, not to \<^verbatim>\<open>[clip_min_i, clip_max]\<close>. The cell's \<^verbatim>\<open>zp\<close>
  is \<open>sym_zp\<close> here, and \<open>yq1\<close> is \<^verbatim>\<open>yq_i\<close> at one element.
\<close>

definition clip_min_i :: "real \<Rightarrow> real \<Rightarrow> real" where
  "clip_min_i clip_min clip_max = - max clip_max \<bar>clip_min\<bar>"

definition nbins :: "int \<Rightarrow> real" where
  "nbins n_bit = pow2 n_bit - 2"

definition scale :: "int \<Rightarrow> real \<Rightarrow> real \<Rightarrow> real" where
  "scale n_bit clip_min clip_max = (clip_max - clip_min_i clip_min clip_max) / nbins n_bit"

definition sym_zp :: real where
  "sym_zp = 0"

definition y_int_i :: "int \<Rightarrow> real \<Rightarrow> real \<Rightarrow> real \<Rightarrow> int" where
  "y_int_i n_bit clip_min clip_max x =
     round_half_even ((clamp x clip_min clip_max - sym_zp) / scale n_bit clip_min clip_max)"

definition yq1 :: "int \<Rightarrow> real \<Rightarrow> real \<Rightarrow> real \<Rightarrow> real" where
  "yq1 n_bit clip_min clip_max x =
     of_int (y_int_i n_bit clip_min clip_max x) * scale n_bit clip_min clip_max + sym_zp"

text \<open>
  \<^verbatim>\<open>np.abs\<close> returns a NumPy scalar and Python's \<^verbatim>\<open>max(a, b)\<close> returns \<^verbatim>\<open>a\<close> unless
  \<^verbatim>\<open>b > a\<close>. So with \<^verbatim>\<open>nbins = 0\<close> the division that computes \<^verbatim>\<open>scale\<close> raises
  when \<^verbatim>\<open>abs(clip_min) <= clip_max\<close> (Python floats) and yields \<^verbatim>\<open>inf\<close> or
  \<^verbatim>\<open>nan\<close> otherwise (a NumPy scalar); from a non-finite or zero \<^verbatim>\<open>scale\<close> every
  element of a non-empty \<^verbatim>\<open>yq_i\<close> is \<^verbatim>\<open>nan\<close>.
\<close>

definition yq_i :: "real list \<Rightarrow> int \<Rightarrow> real \<Rightarrow> real \<Rightarrow> failure + real list" where
  "yq_i raw_i n_bit clip_min clip_max =
     (if nbins n_bit = 0 \<and> \<bar>clip_min\<bar> \<le> clip_max then Inl ZeroDivisionError
      else if (nbins n_bit = 0 \<or> scale n_bit clip_min clip_max = 0) \<and> raw_i \<noteq> []
        then Inl NonFinite
      else Inr (map (yq1 n_bit clip_min clip_max) raw_i))"

subsection \<open>The algorithm as the specification words it\<close>

text \<open>
  The clamp of the specification: values below the lower bound become the lower bound,
  values above the upper bound become the upper bound, values in range pass unchanged.
\<close>

definition spec_clamp :: "real \<Rightarrow> real \<Rightarrow> real \<Rightarrow> real" where
  "spec_clamp x clip_lower clip_upper =
     (if x < clip_lower then clip_lower else if clip_upper < x then clip_upper else x)"


text \<open>The symmetric variant: the same steps with the symmetric zero point and step size.\<close>

definition spec_quantize_sym :: "(real \<Rightarrow> int) \<Rightarrow> int \<Rightarrow> real \<Rightarrow> real \<Rightarrow> real \<Rightarrow> real" where
  "spec_quantize_sym rnd bit_width clip_lower clip_upper x =
     (let clip_lower_effective = - max clip_upper \<bar>clip_lower\<bar>;
          zero_point = 0;
          step_size = (clip_upper - clip_lower_effective) / (2 ^ nat bit_width - 2);
          clamped = spec_clamp x clip_lower clip_upper;
          scaled = (clamped - zero_point) / step_size;
          code = rnd scaled
      in of_int code * step_size + zero_point)"

text \<open>Rounding to nearest with a half-way value sent away from zero.\<close>

definition round_half_away :: "real \<Rightarrow> int" where
  "round_half_away x = (if 0 \<le> x then \<lfloor>x + 1 / 2\<rfloor> else \<lceil>x - 1 / 2\<rceil>)"

section \<open>Properties\<close>

lemmas quant_defs = simpleQuantizer_def quant1_def y_int_def y_scaled_def stepsize_def zp_def
  clamp_def pow2_def round_half_even_def Let_def

lemmas sym_defs = yq_i_def yq1_def y_int_i_def scale_def nbins_def clip_min_i_def sym_zp_def
  clamp_def pow2_def round_half_even_def Let_def

subsection \<open>Rounding half to even\<close>

lemma rhe_floor_le: "\<lfloor>x\<rfloor> \<le> round_half_even x"
  by (simp add: round_half_even_def Let_def)

lemma rhe_le_floor1: "round_half_even x \<le> \<lfloor>x\<rfloor> + 1"
  by (simp add: round_half_even_def Let_def)

lemma rhe_of_int: "round_half_even (of_int k) = k"
  by (simp add: round_half_even_def)

lemma rhe_err: "\<bar>of_int (round_half_even x) - x\<bar> \<le> 1 / 2"
proof -
  have "of_int \<lfloor>x\<rfloor> \<le> x" and "x < of_int \<lfloor>x\<rfloor> + 1" by linarith+
  then show ?thesis
    by (auto simp add: round_half_even_def Let_def)
qed

lemma rhe_mono: "x \<le> y \<Longrightarrow> round_half_even x \<le> round_half_even y"
proof -
  assume le: "x \<le> y"
  then have fl: "\<lfloor>x\<rfloor> \<le> \<lfloor>y\<rfloor>" by (rule floor_mono)
  show ?thesis
  proof (cases "\<lfloor>x\<rfloor> = \<lfloor>y\<rfloor>")
    case True
    with le show ?thesis
      by (auto simp add: round_half_even_def Let_def)
  next
    case False
    with fl have "\<lfloor>x\<rfloor> + 1 \<le> \<lfloor>y\<rfloor>" by simp
    with rhe_le_floor1 [of x] rhe_floor_le [of y] show ?thesis by linarith
  qed
qed


lemma rhe_tie: "round_half_even (of_int k + 1 / 2) = (if even k then k else k + 1)"
proof -
  have "\<lfloor>of_int k + (1 / 2 :: real)\<rfloor> = k" by linarith
  then show ?thesis
    by (simp add: round_half_even_def Let_def)
qed

subsection \<open>Valid parameters of \<^verbatim>\<open>simpleQuantizer\<close>\<close>

lemma pow2_nat: "0 \<le> n \<Longrightarrow> pow2 n = 2 ^ nat n"
  by (simp add: pow2_def)

lemma pow2_ge2: "1 \<le> n \<Longrightarrow> 2 \<le> pow2 n"
proof -
  assume n: "1 \<le> n"
  then have "1 \<le> nat n" by simp
  then have "(2::real) ^ 1 \<le> 2 ^ nat n" by (intro power_increasing) simp_all
  with n show ?thesis by (simp add: pow2_def)
qed

lemma pow2_levels: "0 \<le> n \<Longrightarrow> pow2 n - 1 = of_int (2 ^ nat n - 1)"
  by (simp add: pow2_def)


lemma stepsize_pos: "1 \<le> n \<Longrightarrow> lo < hi \<Longrightarrow> 0 < stepsize n lo hi"
  using pow2_ge2 [of n] by (simp add: stepsize_def zp_def)

lemma stepsize_levels:
  "1 \<le> n \<Longrightarrow> lo < hi \<Longrightarrow> (hi - lo) / stepsize n lo hi = pow2 n - 1"
  using pow2_ge2 [of n] by (simp add: stepsize_def zp_def)

lemma clamp_range: "lo \<le> hi \<Longrightarrow> lo \<le> clamp x lo hi \<and> clamp x lo hi \<le> hi"
  by (simp add: clamp_def)

lemma clamp_id: "lo \<le> x \<Longrightarrow> x \<le> hi \<Longrightarrow> clamp x lo hi = x"
  by (simp add: clamp_def)

lemma clamp_mono: "a \<le> b \<Longrightarrow> clamp a lo hi \<le> clamp b lo hi"
  by (auto simp add: clamp_def min_def max_def)

lemma clamp_spec_clamp: "lo \<le> hi \<Longrightarrow> clamp x lo hi = spec_clamp x lo hi"
  by (auto simp add: clamp_def spec_clamp_def)

lemma y_scaled_range:
  assumes "1 \<le> n" and "lo < hi"
  shows "0 \<le> y_scaled n lo hi x" and "y_scaled n lo hi x \<le> pow2 n - 1"
proof -
  have s: "0 < stepsize n lo hi" using assms by (rule stepsize_pos)
  have c: "lo \<le> clamp x lo hi" "clamp x lo hi \<le> hi"
    using assms clamp_range [of lo hi x] by simp_all
  from s c show "0 \<le> y_scaled n lo hi x" by (simp add: y_scaled_def)
  from c have "clamp x lo hi - lo \<le> hi - lo" by simp
  with s have "(clamp x lo hi - lo) / stepsize n lo hi \<le> (hi - lo) / stepsize n lo hi"
    by (simp add: divide_right_mono)
  with assms show "y_scaled n lo hi x \<le> pow2 n - 1"
    by (simp add: y_scaled_def stepsize_levels)
qed

lemma y_int_range:
  assumes "1 \<le> n" and "lo < hi"
  shows "0 \<le> y_int n lo hi x" and "y_int n lo hi x \<le> 2 ^ nat n - 1"
proof -
  have "round_half_even (of_int 0) \<le> round_half_even (y_scaled n lo hi x)"
    using y_scaled_range(1) [OF assms, of x] by (intro rhe_mono) simp
  then show "0 \<le> y_int n lo hi x" using rhe_of_int [of 0] by (simp add: y_int_def)
  have "y_scaled n lo hi x \<le> of_int (2 ^ nat n - 1)"
    using y_scaled_range(2) [OF assms, of x] assms pow2_levels [of n] by simp
  then have "round_half_even (y_scaled n lo hi x) \<le> round_half_even (of_int (2 ^ nat n - 1))"
    by (rule rhe_mono)
  then show "y_int n lo hi x \<le> 2 ^ nat n - 1" by (simp only: y_int_def rhe_of_int)
qed

lemma quant1_range:
  assumes "1 \<le> n" and "lo < hi"
  shows "lo \<le> quant1 n lo hi x" and "quant1 n lo hi x \<le> hi"
proof -
  have s: "0 < stepsize n lo hi" using assms by (rule stepsize_pos)
  have k0: "0 \<le> real_of_int (y_int n lo hi x)"
    using y_int_range(1) [OF assms, of x] by simp
  with s have "0 \<le> of_int (y_int n lo hi x) * stepsize n lo hi" by simp
  then show "lo \<le> quant1 n lo hi x" by (simp add: quant1_def zp_def)
  have "real_of_int (y_int n lo hi x) \<le> real_of_int (2 ^ nat n - 1)"
    using y_int_range(2) [OF assms, of x] by (simp only: of_int_le_iff)
  then have "real_of_int (y_int n lo hi x) \<le> pow2 n - 1"
    using assms pow2_levels [of n] by simp
  with s have "of_int (y_int n lo hi x) * stepsize n lo hi \<le> (pow2 n - 1) * stepsize n lo hi"
    by (simp add: mult_right_mono)
  also have "(pow2 n - 1) * stepsize n lo hi = hi - lo"
    using pow2_ge2 [OF assms(1)] by (simp add: stepsize_def zp_def)
  finally show "quant1 n lo hi x \<le> hi" by (simp add: quant1_def zp_def)
qed

lemma simpleQuantizer_valid:
  assumes "1 \<le> n" and "lo < hi"
  shows "simpleQuantizer xs n lo hi = Inr (map (quant1 n lo hi) xs)"
  using pow2_ge2 [OF assms(1)] stepsize_pos [OF assms]
  by (simp add: simpleQuantizer_def)


lemma quant1_idem:
  assumes "1 \<le> n" and "lo < hi"
  shows "quant1 n lo hi (quant1 n lo hi x) = quant1 n lo hi x"
proof -
  define k where "k = y_int n lo hi x"
  define q where "q = quant1 n lo hi x"
  have s: "0 < stepsize n lo hi" using assms by (rule stepsize_pos)
  have q: "q = of_int k * stepsize n lo hi + lo" by (simp add: q_def k_def quant1_def zp_def)
  have "lo \<le> q" "q \<le> hi" using quant1_range [OF assms, of x] by (simp_all add: q_def)
  then have "clamp q lo hi = q" by (rule clamp_id)
  then have "y_scaled n lo hi q = of_int k" using s by (simp add: y_scaled_def q)
  then have "y_int n lo hi q = k" by (simp add: y_int_def rhe_of_int)
  then have "quant1 n lo hi q = q" by (simp add: quant1_def zp_def q)
  then show ?thesis by (simp add: q_def)
qed

lemma quant1_mono:
  assumes "1 \<le> n" and "lo < hi" and "a \<le> b"
  shows "quant1 n lo hi a \<le> quant1 n lo hi b"
proof -
  have s: "0 < stepsize n lo hi" using assms(1,2) by (rule stepsize_pos)
  have "clamp a lo hi - lo \<le> clamp b lo hi - lo" using clamp_mono [OF assms(3)] by simp
  with s have "y_scaled n lo hi a \<le> y_scaled n lo hi b"
    by (simp add: y_scaled_def divide_right_mono)
  then have "y_int n lo hi a \<le> y_int n lo hi b" unfolding y_int_def by (rule rhe_mono)
  then have "real_of_int (y_int n lo hi a) \<le> real_of_int (y_int n lo hi b)" by simp
  with s have "of_int (y_int n lo hi a) * stepsize n lo hi \<le> of_int (y_int n lo hi b) * stepsize n lo hi"
    by (simp add: mult_right_mono)
  then show ?thesis by (simp add: quant1_def)
qed

lemma quant1_err:
  assumes "1 \<le> n" and "lo < hi" and "lo \<le> x" and "x \<le> hi"
  shows "\<bar>quant1 n lo hi x - x\<bar> \<le> stepsize n lo hi / 2"
proof -
  define s where "s = stepsize n lo hi"
  define t where "t = y_scaled n lo hi x"
  have s: "0 < s" unfolding s_def using assms(1,2) by (rule stepsize_pos)
  have "clamp x lo hi = x" using assms(3,4) by (rule clamp_id)
  then have t: "t * s = x - lo" using s by (simp add: t_def y_scaled_def s_def)
  have "quant1 n lo hi x = of_int (round_half_even t) * s + lo"
    by (simp add: quant1_def y_int_def zp_def s_def t_def)
  then have "quant1 n lo hi x - x = of_int (round_half_even t) * s - (x - lo)" by simp
  also have "\<dots> = of_int (round_half_even t) * s - t * s" by (simp only: t)
  also have "\<dots> = (of_int (round_half_even t) - t) * s" by (simp add: algebra_simps)
  finally have "\<bar>quant1 n lo hi x - x\<bar> = \<bar>of_int (round_half_even t) - t\<bar> * s"
    using s by (simp add: abs_mult)
  also have "\<dots> \<le> (1 / 2) * s" using rhe_err [of t] s by (intro mult_right_mono) simp_all
  finally show ?thesis by (simp add: s_def)
qed


section \<open>The asymmetric quantizer\<close>





text \<open>
  C5. Quantization is idempotent: for valid parameters \<^verbatim>\<open>simpleQuantizer\<close> returns an
  array, and quantizing that array again with the same parameters returns it unchanged
  (in exact arithmetic).
\<close>

theorem simpleQuantizer_idempotent:
  assumes "1 \<le> n_bit" and "clip_min < clip_max"
  shows "\<exists>ys. simpleQuantizer input n_bit clip_min clip_max = Inr ys \<and>
           simpleQuantizer ys n_bit clip_min clip_max = Inr ys"
  using assms by (simp add: simpleQuantizer_valid quant1_idem)

theorem simpleQuantizer_idempotent_witness:
  "(1::int) \<le> 4 \<and> (- 5 / 2 :: real) < 5 / 2 \<and>
   (\<exists>ys. simpleQuantizer [0, 3, - 1 / 3, - 4] 4 (- 5 / 2) (5 / 2) = Inr ys \<and>
      simpleQuantizer ys 4 (- 5 / 2) (5 / 2) = Inr ys) \<and>
   simpleQuantizer [1 / 6, 5 / 2, - 1 / 2, - 5 / 2] 4 (- 5 / 2) (5 / 2) =
     Inr [1 / 6, 5 / 2, - 1 / 2, - 5 / 2]"
proof -
  have a: "(1::int) \<le> 4" and b: "(- 5 / 2 :: real) < 5 / 2" by simp_all
  have c: "simpleQuantizer [1 / 6, 5 / 2, - 1 / 2, - 5 / 2] 4 (- 5 / 2) (5 / 2) =
      Inr [1 / 6, 5 / 2, - 1 / 2, - 5 / 2]"
    by (simp add: quant_defs)
  from a b c simpleQuantizer_idempotent [OF a b, of "[0, 3, - 1 / 3, - 4]"]
  show ?thesis by (intro conjI)
qed

text \<open>
  C6. Quantization is monotone: for valid parameters and scalars \<open>a \<le> b\<close>, both inside
  \<open>[clip_min, clip_max]\<close>, the quantized \<open>a\<close> is at most the quantized \<open>b\<close>.
\<close>

theorem simpleQuantizer_monotone:
  assumes "1 \<le> n_bit" and "clip_min < clip_max"
    and "clip_min \<le> a" and "a \<le> b" and "b \<le> clip_max"
  shows "\<exists>qa qb. simpleQuantizer [a] n_bit clip_min clip_max = Inr [qa] \<and>
           simpleQuantizer [b] n_bit clip_min clip_max = Inr [qb] \<and> qa \<le> qb"
  using assms(1,2) quant1_mono [OF assms(1,2,4)] by (simp add: simpleQuantizer_valid)

theorem simpleQuantizer_monotone_witness:
  "(1::int) \<le> 4 \<and> (- 5 / 2 :: real) < 5 / 2 \<and>
   (- 5 / 2 :: real) \<le> 0 \<and> (0::real) \<le> 1 / 5 \<and> (1 / 5 :: real) \<le> 5 / 2 \<and>
   (\<exists>qa qb. simpleQuantizer [0] 4 (- 5 / 2) (5 / 2) = Inr [qa] \<and>
      simpleQuantizer [1 / 5] 4 (- 5 / 2) (5 / 2) = Inr [qb] \<and> qa \<le> qb)"
proof -
  have a: "(1::int) \<le> 4" and b: "(- 5 / 2 :: real) < 5 / 2"
    and c: "(- 5 / 2 :: real) \<le> 0" and d: "(0::real) \<le> 1 / 5"
    and e: "(1 / 5 :: real) \<le> 5 / 2" by simp_all
  from a b c d e simpleQuantizer_monotone [OF a b c d e]
  show ?thesis by (intro conjI)
qed

text \<open>
  C7. The worked asymmetric case: with \<open>n_bit = 4\<close>, \<open>clip_min = -2.5\<close> and
  \<open>clip_max = 2.5\<close> the step size is \<open>1/3\<close>; the input \<open>0\<close> has scaled value \<open>7.5\<close>,
  integer code \<open>8\<close> and output \<open>8 * (1/3) + (-2.5) = 1/6\<close>; the input \<open>3\<close> is clamped
  to \<open>2.5\<close>, has scaled value \<open>15\<close> and output \<open>2.5\<close>.
\<close>

theorem asymmetric_worked_example:
  "stepsize 4 (- 5 / 2) (5 / 2) = 1 / 3 \<and>
   y_scaled 4 (- 5 / 2) (5 / 2) 0 = 15 / 2 \<and>
   y_int 4 (- 5 / 2) (5 / 2) 0 = 8 \<and>
   clamp 3 (- 5 / 2) (5 / 2) = 5 / 2 \<and>
   y_scaled 4 (- 5 / 2) (5 / 2) 3 = 15 \<and>
   simpleQuantizer [0, 3] 4 (- 5 / 2) (5 / 2) = Inr [8 * (1 / 3) + (- 5 / 2), 5 / 2] \<and>
   8 * (1 / 3) + (- 5 / 2) = (1 / 6 :: real)"
  by (simp add: quant_defs)

text \<open>
  C10. The quantization error: for valid parameters and a scalar \<open>x\<close> inside
  \<open>[clip_min, clip_max]\<close>, the output differs from \<open>x\<close> by at most half a step, the step
  being \<open>(clip_max - clip_min) / (2 ^ n_bit - 1)\<close>.
\<close>

theorem simpleQuantizer_error_bound:
  assumes "1 \<le> n_bit" and "clip_min < clip_max" and "clip_min \<le> x" and "x \<le> clip_max"
  shows "\<exists>q. simpleQuantizer [x] n_bit clip_min clip_max = Inr [q] \<and>
           \<bar>q - x\<bar> \<le> ((clip_max - clip_min) / (2 ^ nat n_bit - 1)) / 2"
proof -
  have "stepsize n_bit clip_min clip_max = (clip_max - clip_min) / (2 ^ nat n_bit - 1)"
    using assms(1) by (simp add: stepsize_def zp_def pow2_def)
  with quant1_err [OF assms] assms(1,2) show ?thesis by (simp add: simpleQuantizer_valid)
qed

theorem simpleQuantizer_error_bound_witness:
  "(1::int) \<le> 4 \<and> (- 5 / 2 :: real) < 5 / 2 \<and>
   (- 5 / 2 :: real) \<le> 0 \<and> (0::real) \<le> 5 / 2 \<and>
   (\<exists>q. simpleQuantizer [0] 4 (- 5 / 2) (5 / 2) = Inr [q] \<and>
      \<bar>q - 0\<bar> \<le> ((5 / 2 - (- 5 / 2)) / (2 ^ nat 4 - 1)) / 2) \<and>
   simpleQuantizer [0] 4 (- 5 / 2) (5 / 2) = Inr [1 / 6]"
proof -
  have a: "(1::int) \<le> 4" and b: "(- 5 / 2 :: real) < 5 / 2"
    and c: "(- 5 / 2 :: real) \<le> 0" and d: "(0::real) \<le> 5 / 2" by simp_all
  have e: "simpleQuantizer [0] 4 (- 5 / 2) (5 / 2) = Inr [1 / 6]"
    by (simp add: quant_defs)
  from a b c d e simpleQuantizer_error_bound [OF a b c d]
  show ?thesis by (intro conjI)
qed

section \<open>Parameters outside the valid range\<close>




section \<open>The rounding convention\<close>

text \<open>
  C9, as stated: a scaled value half-way between two integers is rounded away from zero,
  so \<open>6.5\<close> becomes \<open>7\<close>. In \<^verbatim>\<open>simpleQuantizer\<close> with \<open>n_bit = 4\<close> and bounds
  \<open>-2.5\<close>, \<open>2.5\<close> the input \<open>-1/3\<close> has the scaled value \<open>6.5\<close>; rounding away from zero
  gives \<open>7\<close>, the integer code is \<open>6\<close>.
\<close>

theorem half_way_rounds_to_even_not_away:
  "y_scaled 4 (- 5 / 2) (5 / 2) (- 1 / 3) = 13 / 2 \<and>
   round_half_away (13 / 2) = 7 \<and>
   y_int 4 (- 5 / 2) (5 / 2) (- 1 / 3) = 6"
  by (simp add: quant_defs round_half_away_def)

text \<open>
  C9, amended: a scaled value half-way between two integers is rounded to the even one of
  the two: \<open>k + 1/2\<close> becomes \<open>k\<close> when \<open>k\<close> is even and \<open>k + 1\<close> when \<open>k\<close> is odd
  (\<open>6.5\<close> becomes \<open>6\<close>, \<open>7.5\<close> becomes \<open>8\<close>).
\<close>

theorem y_int_half_way_to_even:
  assumes "y_scaled n_bit clip_min clip_max x = of_int k + 1 / 2"
  shows "y_int n_bit clip_min clip_max x = (if even k then k else k + 1)"
  using assms by (simp only: y_int_def rhe_tie)

theorem y_int_half_way_to_even_witness:
  "y_scaled 4 (- 5 / 2) (5 / 2) (- 1 / 3) = of_int 6 + 1 / 2 \<and>
   y_int 4 (- 5 / 2) (5 / 2) (- 1 / 3) = 6"
proof -
  have a: "y_scaled 4 (- 5 / 2) (5 / 2) (- 1 / 3) = of_int 6 + 1 / 2"
    by (simp add: y_scaled_def stepsize_def zp_def clamp_def pow2_def)
  from a y_int_half_way_to_even [OF a] show ?thesis by simp
qed


section \<open>The symmetric quantizer and the number of levels\<close>

lemma nbins_levels:
  assumes "2 \<le> n"
  shows "nbins n = of_int (2 ^ nat n - 2)" and "even (2 ^ nat n - 2 :: int)"
    and "2 \<le> nbins n"
proof -
  show "nbins n = of_int (2 ^ nat n - 2)" using assms by (simp add: nbins_def pow2_def)
  have "0 < nat n" using assms by simp
  then show "even (2 ^ nat n - 2 :: int)" by simp
  have "2 \<le> nat n" using assms by simp
  then have "(2::real) ^ 2 \<le> 2 ^ nat n" by (intro power_increasing) simp_all
  then show "2 \<le> nbins n" using assms by (simp add: nbins_def pow2_def)
qed

lemma span_pos: "lo < hi \<Longrightarrow> 0 < hi - clip_min_i lo hi"
  by (auto simp add: clip_min_i_def max_def)

lemma scale_pos: "2 \<le> n \<Longrightarrow> lo < hi \<Longrightarrow> 0 < scale n lo hi"
  using nbins_levels(3) [of n] span_pos [of lo hi] by (simp add: scale_def)



lemma yq_i_valid:
  assumes "2 \<le> n" and "lo < hi"
  shows "yq_i xs n lo hi = Inr (map (yq1 n lo hi) xs)"
  using nbins_levels(3) [OF assms(1)] scale_pos [OF assms] by (simp add: yq_i_def)




lemma yq1_spec:
  assumes "2 \<le> n" and "lo < hi"
  shows "yq1 n lo hi x = spec_quantize_sym round_half_even n lo hi x"
proof -
  have "clamp x lo hi = spec_clamp x lo hi" using assms by (intro clamp_spec_clamp) simp
  moreover have "pow2 n = 2 ^ nat n" using assms by (intro pow2_nat) simp
  ultimately show ?thesis
    by (simp add: yq1_def y_int_i_def scale_def nbins_def clip_min_i_def sym_zp_def
        spec_quantize_sym_def Let_def)
qed

text \<open>
  The symmetric quantizer clips to \<open>[clip_min, clip_max]\<close> and then rounds to a multiple of
  \<open>scale\<close>; when the bounds are not symmetric about zero the lower bound need not be such
  a multiple, and the output can lie below it.
\<close>

lemma symmetric_level_below_clip_min:
  "yq_i [- 1] 4 (- 1) (5 / 2) = Inr [- 15 / 14]"
  by (simp add: sym_defs)




text \<open>
  C8. The symmetric quantizer uses the effective lower bound \<open>- max clip_max \<bar>clip_min\<bar>\<close>,
  the zero point \<open>0\<close> and the step size
  \<open>(clip_max - clip_lower_effective) / (2 ^ n_bit - 2)\<close>: for \<open>2 \<le> n_bit\<close> and
  \<open>clip_min < clip_max\<close> its output is that of the symmetric algorithm worded with these
  three. With \<open>n_bit = 4\<close> and bounds \<open>-2.5\<close>, \<open>2.5\<close> the effective lower bound is
  \<open>-2.5\<close>, there are \<open>14\<close> bins, the step size is \<open>5/14\<close>, and the input \<open>0\<close> has code
  \<open>0\<close> and output \<open>0\<close>.
\<close>

theorem symmetric_parameters_and_example:
  "(2 \<le> n_bit \<and> clip_min < clip_max \<longrightarrow>
      yq_i raw_i n_bit clip_min clip_max =
        Inr (map (spec_quantize_sym round_half_even n_bit clip_min clip_max) raw_i)) \<and>
   clip_min_i (- 5 / 2) (5 / 2) = - 5 / 2 \<and>
   nbins 4 = 14 \<and>
   scale 4 (- 5 / 2) (5 / 2) = 5 / 14 \<and>
   sym_zp = 0 \<and>
   y_int_i 4 (- 5 / 2) (5 / 2) 0 = 0 \<and>
   yq_i [0] 4 (- 5 / 2) (5 / 2) = Inr [0]"
proof -
  have "2 \<le> n_bit \<and> clip_min < clip_max \<longrightarrow>
      yq_i raw_i n_bit clip_min clip_max =
        Inr (map (spec_quantize_sym round_half_even n_bit clip_min clip_max) raw_i)"
    by (simp add: yq_i_valid yq1_spec)
  moreover have "clip_min_i (- 5 / 2) (5 / 2) = - 5 / 2" by (simp add: clip_min_i_def)
  moreover have "nbins 4 = 14" by (simp add: nbins_def pow2_def)
  moreover have "scale 4 (- 5 / 2) (5 / 2) = 5 / 14"
    by (simp add: scale_def nbins_def pow2_def clip_min_i_def)
  moreover have "sym_zp = 0" by (simp add: sym_zp_def)
  moreover have "y_int_i 4 (- 5 / 2) (5 / 2) 0 = 0" by (simp add: sym_defs)
  moreover have "yq_i [0] 4 (- 5 / 2) (5 / 2) = Inr [0]" by (simp add: sym_defs)
  ultimately show ?thesis by (intro conjI)
qed

theorem symmetric_parameters_and_example_witness:
  "((2::int) \<le> 4 \<and> (- 5 / 2 :: real) < 5 / 2) \<and>
   yq_i [0, 3, - 1, 1 / 2] 4 (- 5 / 2) (5 / 2) =
     Inr (map (spec_quantize_sym round_half_even 4 (- 5 / 2) (5 / 2)) [0, 3, - 1, 1 / 2]) \<and>
   yq_i [0, 3, - 1, 1 / 2] 4 (- 5 / 2) (5 / 2) = Inr [0, 5 / 2, - 15 / 14, 5 / 14]"
proof -
  have a: "(2::int) \<le> 4 \<and> (- 5 / 2 :: real) < 5 / 2" by simp
  have b: "yq_i [0, 3, - 1, 1 / 2] 4 (- 5 / 2) (5 / 2) = Inr [0, 5 / 2, - 15 / 14, 5 / 14]"
    by (simp add: sym_defs)
  from symmetric_parameters_and_example [of 4 "- 5 / 2" "5 / 2" "[0, 3, - 1, 1 / 2]"] a
  have c: "yq_i [0, 3, - 1, 1 / 2] 4 (- 5 / 2) (5 / 2) =
     Inr (map (spec_quantize_sym round_half_even 4 (- 5 / 2) (5 / 2)) [0, 3, - 1, 1 / 2])"
    by blast
  from a b c show ?thesis by blast
qed

end
